theory Spec2Isabelle
  imports Main
begin

section \<open>The scraper session controller of \<^verbatim>\<open>src/scrapers/base_scraper.py\<close>\<close>

text \<open>
  The class \<^verbatim>\<open>BaseScraper\<close> drives a browser through a fixed lifecycle:
  \<^verbatim>\<open>init_browser\<close>, an optional \<^verbatim>\<open>authenticate\<close>, one
  \<^verbatim>\<open>extract_data\<close> per URL, and \<^verbatim>\<open>close_browser\<close> in a
  \<^verbatim>\<open>finally\<close> block. The embedding passes the object and the outside world
  as one explicit state, returns exceptions as values (\<open>Inl\<close> is a raised exception),
  and records every call the controller makes in a trace, so that statements about
  "how often" and "in which order" are statements about a list.
\<close>

subsection \<open>Exceptions\<close>

text \<open>
  Python separates the exceptions that \<^verbatim>\<open>except Exception\<close> catches from those
  it lets through (\<^verbatim>\<open>asyncio.CancelledError\<close>, \<^verbatim>\<open>KeyboardInterrupt\<close>:
  subclasses of \<^verbatim>\<open>BaseException\<close> only). Both kinds carry a message, which is
  what \<^verbatim>\<open>str(e)\<close> returns.
\<close>

datatype exn = Exception string | BaseException string

fun str :: "exn \<Rightarrow> string" where
  "str (Exception m) = m"
| "str (BaseException m) = m"

fun is_Exception :: "exn \<Rightarrow> bool" where
  "is_Exception (Exception m) = True"
| "is_Exception (BaseException m) = False"

subsection \<open>Handles, events and the state\<close>

type_synonym handle = nat
type_synonym url = string

text \<open>
  A \<^verbatim>\<open>Dict[str, str]\<close> is modelled by the list of its items: the controller only
  tests the dictionary for truth (a dictionary is false exactly when it has no item) and
  hands it to the strategy.
\<close>

type_synonym credentials = "(string \<times> string) list"

datatype level = INFO | ERROR

text \<open>
  The trace. \<open>Call_\<dots>\<close> events are written when the controller makes the call, whatever
  its outcome; \<open>Browser_created\<close>, \<open>Page_created\<close>, \<open>Page_closed\<close> and
  \<open>Browser_closed\<close> are written when the browser engine has completed the operation.
\<close>

datatype event =
    Call_playwright_start
  | Call_launch bool
  | Browser_created handle
  | Call_new_page handle
  | Page_created handle
  | Call_authenticate credentials
  | Call_extract_data url
  | Call_close_browser
  | Call_page_close handle
  | Page_closed handle
  | Call_browser_close handle
  | Browser_closed handle
  | Call_goto handle url string nat
  | Call_wait_for_timeout handle int
  | Log level string

text \<open>
  The fields of \<^verbatim>\<open>self\<close> as \<^verbatim>\<open>__init__\<close> declares them, followed by
  what lies outside the object: the state of the site strategy (the subclass), the next
  fresh handle of the browser engine, and the trace.
\<close>

record 's scraper =
  site_name :: string
  headless :: bool
  browser :: "handle option"
  page :: "handle option"
  base_url :: string
  strategy :: 's
  next_handle :: handle
  trace :: "event list"

text \<open>
  What the collaborators answer during one run. The browser engine's operations either
  complete (\<open>None\<close>) or raise; the two abstract methods of the strategy read and update
  the strategy's own state and return a value or raise. The strategy is taken to leave
  the controller's fields \<^verbatim>\<open>browser\<close> and \<^verbatim>\<open>page\<close> alone and not to
  call \<^verbatim>\<open>close_browser\<close> itself.
\<close>

record ('s, 'r) env =
  start_exn :: "exn option"
  launch_exn :: "bool \<Rightarrow> exn option"
  new_page_exn :: "handle \<Rightarrow> exn option"
  page_close_exn :: "handle \<Rightarrow> exn option"
  browser_close_exn :: "handle \<Rightarrow> exn option"
  goto_exn :: "handle \<Rightarrow> url \<Rightarrow> exn option"
  wait_exn :: "handle \<Rightarrow> int \<Rightarrow> exn option"
  authenticate :: "credentials \<Rightarrow> 's \<Rightarrow> (exn + bool) \<times> 's"
  extract_data :: "url \<Rightarrow> 's \<Rightarrow> (exn + 'r list) \<times> 's"

definition emit :: "event list \<Rightarrow> 's scraper \<Rightarrow> 's scraper" where
  "emit evs st = st\<lparr>trace := trace st @ evs\<rparr>"

definition log_prefix :: "'s scraper \<Rightarrow> string" where
  "log_prefix st = ''['' @ site_name st @ '']''"

subsection \<open>The constructor\<close>

definition init_scraper :: "string \<Rightarrow> bool \<Rightarrow> 's \<Rightarrow> 's scraper" where
  "init_scraper name hl s =
     \<lparr>site_name = name, headless = hl, browser = None, page = None, base_url = [],
      strategy = s, next_handle = 0, trace = []\<rparr>"

subsection \<open>\<^verbatim>\<open>init_browser\<close>\<close>

definition init_browser :: "('s, 'r) env \<Rightarrow> 's scraper \<Rightarrow> (exn + unit) \<times> 's scraper" where
  "init_browser env st =
     (let st1 = emit [Call_playwright_start] st in
      case start_exn env of
        Some e \<Rightarrow> (Inl e, st1)
      | None \<Rightarrow>
          (let st2 = emit [Call_launch (headless st1)] st1 in
           case launch_exn env (headless st1) of
             Some e \<Rightarrow> (Inl e, st2)
           | None \<Rightarrow>
               (let b = next_handle st2;
                    st3 = emit [Browser_created b]
                            (st2\<lparr>browser := Some b, next_handle := Suc b\<rparr>);
                    st4 = emit [Call_new_page b] st3 in
                case new_page_exn env b of
                  Some e \<Rightarrow> (Inl e, st4)
                | None \<Rightarrow>
                    (let p = next_handle st4;
                         st5 = emit [Page_created p]
                                 (st4\<lparr>page := Some p, next_handle := Suc p\<rparr>) in
                     (Inr (),
                      emit [Log INFO (log_prefix st5 @ '' completed browser initialization'')]
                        st5)))))"

subsection \<open>\<^verbatim>\<open>close_browser\<close>\<close>

text \<open>
  \<^verbatim>\<open>if self.page: await self.page.close()\<close>, then the same for the browser, then
  the log line. There is no \<^verbatim>\<open>try\<close> in the method: an exception of
  \<^verbatim>\<open>page.close()\<close> leaves it at once. The fields are not reset.
\<close>

definition page_close :: "('s, 'r) env \<Rightarrow> handle \<Rightarrow> 's scraper \<Rightarrow> (exn + unit) \<times> 's scraper" where
  "page_close env p st =
     (let st1 = emit [Call_page_close p] st in
      case page_close_exn env p of
        Some e \<Rightarrow> (Inl e, st1)
      | None \<Rightarrow> (Inr (), emit [Page_closed p] st1))"

definition browser_close :: "('s, 'r) env \<Rightarrow> handle \<Rightarrow> 's scraper \<Rightarrow> (exn + unit) \<times> 's scraper" where
  "browser_close env b st =
     (let st1 = emit [Call_browser_close b] st in
      case browser_close_exn env b of
        Some e \<Rightarrow> (Inl e, st1)
      | None \<Rightarrow> (Inr (), emit [Browser_closed b] st1))"

definition close_browser :: "('s, 'r) env \<Rightarrow> 's scraper \<Rightarrow> (exn + unit) \<times> 's scraper" where
  "close_browser env st =
     (let st0 = emit [Call_close_browser] st in
      case (case page st0 of None \<Rightarrow> (Inr (), st0) | Some p \<Rightarrow> page_close env p st0) of
        (Inl e, st1) \<Rightarrow> (Inl e, st1)
      | (Inr u, st1) \<Rightarrow>
          (case (case browser st1 of None \<Rightarrow> (Inr (), st1)
                 | Some b \<Rightarrow> browser_close env b st1) of
             (Inl e, st2) \<Rightarrow> (Inl e, st2)
           | (Inr u, st2) \<Rightarrow>
               (Inr (), emit [Log INFO (log_prefix st2 @ '' the browser has been closed'')] st2)))"

subsection \<open>\<^verbatim>\<open>navigate_to\<close>\<close>

text \<open>
  The body of the \<^verbatim>\<open>try\<close>: \<^verbatim>\<open>self.page.goto(url, wait_until="networkidle",
  timeout=30000)\<close>, then \<^verbatim>\<open>self.page.wait_for_timeout(wait_time)\<close>, then the log
  line. With \<^verbatim>\<open>self.page\<close> still \<^verbatim>\<open>None\<close> the attribute access raises
  \<^verbatim>\<open>AttributeError\<close> (an \<^verbatim>\<open>Exception\<close>; its message is shortened to the
  name of the class here).
\<close>

definition navigate_try :: "('s, 'r) env \<Rightarrow> url \<Rightarrow> int \<Rightarrow> 's scraper \<Rightarrow> (exn + unit) \<times> 's scraper" where
  "navigate_try env u wait_time st =
     (case page st of
        None \<Rightarrow> (Inl (Exception ''AttributeError''), st)
      | Some p \<Rightarrow>
          (let st1 = emit [Call_goto p u ''networkidle'' 30000] st in
           case goto_exn env p u of
             Some e \<Rightarrow> (Inl e, st1)
           | None \<Rightarrow>
               (let st2 = emit [Call_wait_for_timeout p wait_time] st1 in
                case wait_exn env p wait_time of
                  Some e \<Rightarrow> (Inl e, st2)
                | None \<Rightarrow>
                    (Inr (),
                     emit [Log INFO (log_prefix st2 @ '' successfully navigated to: '' @ u)]
                       st2))))"

text \<open>
  \<^verbatim>\<open>except Exception as e: logger.error(...); raise\<close>: an exception of class
  \<^verbatim>\<open>Exception\<close> is logged and raised again, any other passes unlogged.
\<close>

definition navigate_to :: "('s, 'r) env \<Rightarrow> url \<Rightarrow> int \<Rightarrow> 's scraper \<Rightarrow> (exn + unit) \<times> 's scraper" where
  "navigate_to env u wait_time st =
     (case navigate_try env u wait_time st of
        (Inl e, st1) \<Rightarrow>
          (if is_Exception e
           then (Inl e, emit [Log ERROR (log_prefix st1 @ '' failed to navigate to: '' @ str e)] st1)
           else (Inl e, st1))
      | (Inr u, st1) \<Rightarrow> (Inr (), st1))"

subsection \<open>\<^verbatim>\<open>run\<close>\<close>

text \<open>
  The loop \<^verbatim>\<open>for url in urls: data = await self.extract_data(url);
  all_data.extend(data)\<close>, with the accumulator as an argument. An exception of
  \<^verbatim>\<open>extract_data\<close> ends the loop and the accumulator is lost with the frame.
\<close>

fun extract_loop ::
  "('s, 'r) env \<Rightarrow> url list \<Rightarrow> 'r list \<Rightarrow> 's scraper \<Rightarrow> (exn + 'r list) \<times> 's scraper" where
  "extract_loop env [] all_data st = (Inr all_data, st)"
| "extract_loop env (u # us) all_data st =
     (let st1 = emit [Call_extract_data u] st in
      case extract_data env u (strategy st1) of
        (Inl e, s') \<Rightarrow> (Inl e, st1\<lparr>strategy := s'\<rparr>)
      | (Inr data, s') \<Rightarrow> extract_loop env us (all_data @ data) (st1\<lparr>strategy := s'\<rparr>))"

text \<open>
  Python's truth tests of the two arguments: \<^verbatim>\<open>if credentials:\<close> and
  \<^verbatim>\<open>if urls:\<close> hold for a non-empty dictionary and a non-empty list, and fail
  for \<^verbatim>\<open>None\<close> as for an empty one.
\<close>

fun truthy :: "'a list option \<Rightarrow> bool" where
  "truthy None = False"
| "truthy (Some xs) = (xs \<noteq> [])"

text \<open>Lines 85 to 91: the extraction and the \<^verbatim>\<open>return all_data\<close>.\<close>

definition run_extract ::
  "('s, 'r) env \<Rightarrow> url list option \<Rightarrow> 's scraper \<Rightarrow> (exn + 'r list) \<times> 's scraper" where
  "run_extract env urls st =
     (if truthy urls then extract_loop env (the urls) [] st else (Inr [], st))"

text \<open>Lines 75 to 91: the body of the \<^verbatim>\<open>try\<close>.\<close>

definition run_try ::
  "('s, 'r) env \<Rightarrow> credentials option \<Rightarrow> url list option \<Rightarrow> 's scraper
     \<Rightarrow> (exn + 'r list) \<times> 's scraper" where
  "run_try env creds urls st =
     (case init_browser env st of
        (Inl e, st1) \<Rightarrow> (Inl e, st1)
      | (Inr u, st1) \<Rightarrow>
          (if truthy creds then
             (let st2 = emit [Call_authenticate (the creds)] st1 in
              case authenticate env (the creds) (strategy st2) of
                (Inl e, s') \<Rightarrow> (Inl e, st2\<lparr>strategy := s'\<rparr>)
              | (Inr auth_success, s') \<Rightarrow>
                  (if \<not> auth_success
                   then (Inr [],
                         emit [Log ERROR (log_prefix st2 @ '' authentication failed'')]
                           (st2\<lparr>strategy := s'\<rparr>))
                   else run_extract env urls (st2\<lparr>strategy := s'\<rparr>)))
           else run_extract env urls st1))"

text \<open>
  Lines 93 to 95: \<^verbatim>\<open>except Exception as e: logger.error(...); raise\<close>.
\<close>

definition run_except :: "(exn + 'a) \<Rightarrow> 's scraper \<Rightarrow> 's scraper" where
  "run_except r st =
     (case r of
        Inl e \<Rightarrow>
          (if is_Exception e
           then emit [Log ERROR (log_prefix st @ '' execution failed: '' @ str e)] st
           else st)
      | Inr x \<Rightarrow> st)"

text \<open>
  Lines 97 and 98: the \<^verbatim>\<open>finally\<close> block runs on every path out of the
  \<^verbatim>\<open>try\<close>. When \<^verbatim>\<open>close_browser\<close> raises there, its exception replaces
  the pending return value or exception, as Python defines it.
\<close>

definition run ::
  "('s, 'r) env \<Rightarrow> credentials option \<Rightarrow> url list option \<Rightarrow> 's scraper
     \<Rightarrow> (exn + 'r list) \<times> 's scraper" where
  "run env creds urls st =
     (case run_try env creds urls st of
        (r, st1) \<Rightarrow>
          (case close_browser env (run_except r st1) of
             (Inl e, st2) \<Rightarrow> (Inl e, st2)
           | (Inr u, st2) \<Rightarrow> (r, st2)))"

section \<open>Observing a run\<close>

text \<open>
  The claims count calls and compare their order. These functions read a trace: the URLs
  \<^verbatim>\<open>extract_data\<close> was called with, the credentials \<^verbatim>\<open>authenticate\<close> was
  called with, and the browsers and pages the engine created and closed, each in the
  order of the calls.
\<close>

definition extract_calls :: "event list \<Rightarrow> url list" where
  "extract_calls tr =
     concat (map (\<lambda>ev. case ev of Call_extract_data u \<Rightarrow> [u] | _ \<Rightarrow> []) tr)"

definition auth_calls :: "event list \<Rightarrow> credentials list" where
  "auth_calls tr =
     concat (map (\<lambda>ev. case ev of Call_authenticate c \<Rightarrow> [c] | _ \<Rightarrow> []) tr)"

fun is_resource_event :: "event \<Rightarrow> bool" where
  "is_resource_event (Browser_created b) = True"
| "is_resource_event (Page_created p) = True"
| "is_resource_event (Page_closed p) = True"
| "is_resource_event (Browser_closed b) = True"
| "is_resource_event ev = False"

definition resource_events :: "event list \<Rightarrow> event list" where
  "resource_events tr = filter is_resource_event tr"

text \<open>The events one call of \<open>run\<close> (of the body of its \<^verbatim>\<open>try\<close>) adds to the trace.\<close>

definition run_events ::
  "('s, 'r) env \<Rightarrow> credentials option \<Rightarrow> url list option \<Rightarrow> 's scraper \<Rightarrow> event list" where
  "run_events env creds urls st =
     drop (length (trace st)) (trace (snd (run env creds urls st)))"

definition try_events ::
  "('s, 'r) env \<Rightarrow> credentials option \<Rightarrow> url list option \<Rightarrow> 's scraper \<Rightarrow> event list" where
  "try_events env creds urls st =
     drop (length (trace st)) (trace (snd (run_try env creds urls st)))"

subsection \<open>The strategy on its own\<close>

text \<open>
  The hypotheses of the claims speak of what the strategy answers: "every call to
  \<^verbatim>\<open>extract_data\<close> returns normally", "authentication succeeds". These two
  functions say it without the controller. \<open>extract_results\<close> calls
  \<^verbatim>\<open>extract_data\<close> on each URL in order, from a given strategy state, and gives
  the record lists and the final strategy state, or \<open>None\<close> when a call raises.
  \<open>auth_passes\<close> gives the strategy state after the authentication step when that step
  lets the run go on: \<^verbatim>\<open>authenticate\<close> returned true, or the credentials were
  false in Python's sense and the step was skipped.
\<close>

fun url_list :: "url list option \<Rightarrow> url list" where
  "url_list None = []"
| "url_list (Some us) = us"

fun extract_results :: "('s, 'r) env \<Rightarrow> url list \<Rightarrow> 's \<Rightarrow> ('r list list \<times> 's) option" where
  "extract_results env [] s = Some ([], s)"
| "extract_results env (u # us) s =
     (case extract_data env u s of
        (Inl e, s') \<Rightarrow> None
      | (Inr d, s') \<Rightarrow>
          (case extract_results env us s' of
             None \<Rightarrow> None
           | Some (ds, s'') \<Rightarrow> Some (d # ds, s'')))"

definition auth_passes :: "('s, 'r) env \<Rightarrow> credentials option \<Rightarrow> 's \<Rightarrow> 's option" where
  "auth_passes env creds s =
     (if truthy creds
      then (case authenticate env (the creds) s of
              (Inr ok, s') \<Rightarrow> if ok then Some s' else None
            | (Inl e, s') \<Rightarrow> None)
      else Some s)"

subsection \<open>A site to run on\<close>

text \<open>
  A strategy with two pages, \<^verbatim>\<open>/a\<close> with one record and \<^verbatim>\<open>/b\<close> with two,
  and one valid login; its state counts the calls made to it. In \<open>site_env\<close> the
  browser engine never fails, except that the page \<^verbatim>\<open>/slow\<close> does not load in
  time. The other environments differ from it in one operation of the engine.
\<close>

definition site_env :: "(nat, nat) env" where
  "site_env =
     \<lparr>start_exn = None, launch_exn = (\<lambda>hl. None), new_page_exn = (\<lambda>b. None),
      page_close_exn = (\<lambda>p. None), browser_close_exn = (\<lambda>b. None),
      goto_exn = (\<lambda>p u. if u = ''/slow''
                          then Some (Exception ''Timeout 30000ms exceeded'') else None),
      wait_exn = (\<lambda>p t. None),
      authenticate = (\<lambda>c s. (Inr (c = [(''user'', ''x''), (''pass'', ''secret'')]), Suc s)),
      extract_data = (\<lambda>u s.
        (if u = ''/a'' then Inr [1] else if u = ''/b'' then Inr [2, 3]
         else Inl (Exception ''no such page''), Suc s))\<rparr>"

definition closing_fails_env :: "(nat, nat) env" where
  "closing_fails_env = site_env\<lparr>page_close_exn := (\<lambda>p. Some (Exception ''page crashed''))\<rparr>"

definition launch_fails_env :: "(nat, nat) env" where
  "launch_fails_env = site_env\<lparr>launch_exn := (\<lambda>hl. Some (Exception ''no chromium''))\<rparr>"

definition new_page_fails_env :: "(nat, nat) env" where
  "new_page_fails_env = site_env\<lparr>new_page_exn := (\<lambda>b. Some (Exception ''no page''))\<rparr>"

definition fresh_scraper :: "nat scraper" where
  "fresh_scraper = init_scraper ''site'' True 0"

lemmas model_defs =
  run_def run_try_def run_except_def run_extract_def init_browser_def close_browser_def
  page_close_def browser_close_def navigate_to_def navigate_try_def emit_def log_prefix_def
  init_scraper_def run_events_def try_events_def auth_passes_def
  site_env_def closing_fails_env_def launch_fails_env_def new_page_fails_env_def
  fresh_scraper_def Let_def

section \<open>Lemmas\<close>

subsection \<open>Reading traces\<close>

lemma extract_calls_append [simp]:
  "extract_calls (xs @ ys) = extract_calls xs @ extract_calls ys"
  by (simp add: extract_calls_def)

lemma auth_calls_append [simp]: "auth_calls (xs @ ys) = auth_calls xs @ auth_calls ys"
  by (simp add: auth_calls_def)

lemma extract_calls_simps [simp]:
  "extract_calls [] = []"
  "extract_calls (Call_extract_data u # tr) = u # extract_calls tr"
  "extract_calls (Call_playwright_start # tr) = extract_calls tr"
  "extract_calls (Call_launch h # tr) = extract_calls tr"
  "extract_calls (Browser_created b # tr) = extract_calls tr"
  "extract_calls (Call_new_page b # tr) = extract_calls tr"
  "extract_calls (Page_created p # tr) = extract_calls tr"
  "extract_calls (Call_authenticate c # tr) = extract_calls tr"
  "extract_calls (Call_close_browser # tr) = extract_calls tr"
  "extract_calls (Call_page_close p # tr) = extract_calls tr"
  "extract_calls (Page_closed p # tr) = extract_calls tr"
  "extract_calls (Call_browser_close b # tr) = extract_calls tr"
  "extract_calls (Browser_closed b # tr) = extract_calls tr"
  "extract_calls (Call_goto p u s n # tr) = extract_calls tr"
  "extract_calls (Call_wait_for_timeout p i # tr) = extract_calls tr"
  "extract_calls (Log l m # tr) = extract_calls tr"
  by (simp_all add: extract_calls_def)

lemma auth_calls_simps [simp]:
  "auth_calls [] = []"
  "auth_calls (Call_authenticate c # tr) = c # auth_calls tr"
  "auth_calls (Call_playwright_start # tr) = auth_calls tr"
  "auth_calls (Call_launch h # tr) = auth_calls tr"
  "auth_calls (Browser_created b # tr) = auth_calls tr"
  "auth_calls (Call_new_page b # tr) = auth_calls tr"
  "auth_calls (Page_created p # tr) = auth_calls tr"
  "auth_calls (Call_extract_data u # tr) = auth_calls tr"
  "auth_calls (Call_close_browser # tr) = auth_calls tr"
  "auth_calls (Call_page_close p # tr) = auth_calls tr"
  "auth_calls (Page_closed p # tr) = auth_calls tr"
  "auth_calls (Call_browser_close b # tr) = auth_calls tr"
  "auth_calls (Browser_closed b # tr) = auth_calls tr"
  "auth_calls (Call_goto p u s n # tr) = auth_calls tr"
  "auth_calls (Call_wait_for_timeout p i # tr) = auth_calls tr"
  "auth_calls (Log l m # tr) = auth_calls tr"
  by (simp_all add: auth_calls_def)

lemma resource_events_append [simp]:
  "resource_events (xs @ ys) = resource_events xs @ resource_events ys"
  by (simp add: resource_events_def)

lemma resource_events_Nil [simp]: "resource_events [] = []"
  by (simp add: resource_events_def)

lemma resource_events_Cons [simp]:
  "resource_events (ev # tr) =
     (if is_resource_event ev then ev # resource_events tr else resource_events tr)"
  by (simp add: resource_events_def)

lemma extract_calls_map [simp]: "extract_calls (map Call_extract_data us) = us"
  by (induction us) simp_all

lemma auth_calls_map [simp]: "auth_calls (map Call_extract_data us) = []"
  by (induction us) simp_all

lemma resource_events_map [simp]: "resource_events (map Call_extract_data us) = []"
  by (induction us) simp_all

subsection \<open>The methods one by one, then \<open>run\<close>\<close>

lemma init_browser_ok:
  assumes "fst (init_browser env st) = Inr ()"
  shows "snd (init_browser env st) =
           st\<lparr>browser := Some (next_handle st), page := Some (Suc (next_handle st)),
              next_handle := Suc (Suc (next_handle st)),
              trace := trace st @
                [Call_playwright_start, Call_launch (headless st),
                 Browser_created (next_handle st), Call_new_page (next_handle st),
                 Page_created (Suc (next_handle st)),
                 Log INFO (log_prefix st @ '' completed browser initialization'')]\<rparr>"
  using assms
  by (simp add: init_browser_def emit_def log_prefix_def Let_def split: option.splits)

lemma init_browser_strategy: "strategy (snd (init_browser env st)) = strategy st"
  by (simp add: init_browser_def emit_def Let_def split: option.splits)

lemma init_browser_trace:
  "\<exists>evs. trace (snd (init_browser env st)) = trace st @ evs \<and> Call_close_browser \<notin> set evs
     \<and> auth_calls evs = [] \<and> extract_calls evs = []"
  by (simp add: init_browser_def emit_def Let_def split: option.splits)

lemma init_events_calls:
  "extract_calls (drop (length (trace st)) (trace (snd (init_browser env st)))) = []"
  "auth_calls (drop (length (trace st)) (trace (snd (init_browser env st)))) = []"
  using init_browser_trace [of env st] by auto

lemma close_browser_fst_cong:
  "page st' = page st \<Longrightarrow> browser st' = browser st \<Longrightarrow>
   fst (close_browser env st') = fst (close_browser env st)"
  by (simp add: close_browser_def page_close_def browser_close_def emit_def Let_def
      split: option.splits)

lemma close_browser_fields:
  "page (snd (close_browser env st)) = page st"
  "browser (snd (close_browser env st)) = browser st"
  "strategy (snd (close_browser env st)) = strategy st"
  by (simp_all add: close_browser_def page_close_def browser_close_def emit_def Let_def
      split: option.splits)

lemma close_browser_trace:
  "\<exists>post. trace (snd (close_browser env st)) = trace st @ Call_close_browser # post
     \<and> Call_close_browser \<notin> set post \<and> auth_calls post = [] \<and> extract_calls post = []"
  by (simp add: close_browser_def page_close_def browser_close_def emit_def Let_def
      split: option.splits)

lemma close_browser_ok:
  assumes "page st = Some p" and "browser st = Some b"
    and "fst (close_browser env st) = Inr ()"
  shows "snd (close_browser env st) =
           st\<lparr>trace := trace st @
                 [Call_close_browser, Call_page_close p, Page_closed p,
                  Call_browser_close b, Browser_closed b,
                  Log INFO (log_prefix st @ '' the browser has been closed'')]\<rparr>"
  using assms
  by (simp add: close_browser_def page_close_def browser_close_def emit_def log_prefix_def Let_def
      split: option.splits)

lemma extract_loop_ok:
  "extract_results env us (strategy st) = Some (ds, s') \<Longrightarrow>
   extract_loop env us acc st =
     (Inr (acc @ concat ds), st\<lparr>strategy := s', trace := trace st @ map Call_extract_data us\<rparr>)"
proof (induction us arbitrary: st acc ds)
  case Nil
  then show ?case by simp
next
  case (Cons u us)
  then show ?case
    by (auto simp: emit_def Let_def split: prod.splits sum.splits option.splits)
qed

lemma extract_loop_raises:
  "extract_results env pre (strategy st) = Some (ds, s1) \<Longrightarrow>
   extract_data env u s1 = (Inl e, s2) \<Longrightarrow>
   extract_loop env (pre @ u # post) acc st =
     (Inl e, st\<lparr>strategy := s2, trace := trace st @ map Call_extract_data (pre @ [u])\<rparr>)"
proof (induction pre arbitrary: st acc ds)
  case Nil
  then show ?case by (simp add: emit_def)
next
  case (Cons u us)
  then show ?case
    by (auto simp: emit_def Let_def split: prod.splits sum.splits option.splits)
qed

lemma extract_loop_frame:
  "page (snd (extract_loop env us acc st)) = page st \<and>
   browser (snd (extract_loop env us acc st)) = browser st \<and>
   (\<exists>k. trace (snd (extract_loop env us acc st)) = trace st @ map Call_extract_data (take k us))"
proof (induction us arbitrary: st acc)
  case Nil
  then show ?case by simp
next
  case (Cons u us)
  show ?case
  proof (cases "extract_data env u (strategy st)")
    case (Pair r s')
    show ?thesis
    proof (cases r)
      case (Inl e)
      with Pair have "trace (snd (extract_loop env (u # us) acc st))
                        = trace st @ map Call_extract_data (take 1 (u # us))"
        by (simp add: emit_def)
      with Pair Inl show ?thesis
        by (auto simp: emit_def simp del: take_Suc_Cons take_Cons_numeral)
    next
      case (Inr d)
      let ?st1 = "st\<lparr>trace := trace st @ [Call_extract_data u], strategy := s'\<rparr>"
      from Cons.IH [of "acc @ d" ?st1] obtain k where
        k: "trace (snd (extract_loop env us (acc @ d) ?st1))
              = trace ?st1 @ map Call_extract_data (take k us)"
        and f: "page (snd (extract_loop env us (acc @ d) ?st1)) = page st"
               "browser (snd (extract_loop env us (acc @ d) ?st1)) = browser st"
        by auto
      from k have "trace (snd (extract_loop env us (acc @ d) ?st1))
              = trace st @ map Call_extract_data (take (Suc k) (u # us))" by simp
      with Pair Inr f show ?thesis
        by (auto simp: emit_def simp del: take_Suc_Cons)
    qed
  qed
qed

lemma run_extract_frame:
  "page (snd (run_extract env urls st)) = page st \<and>
   browser (snd (run_extract env urls st)) = browser st \<and>
   (\<exists>us. trace (snd (run_extract env urls st)) = trace st @ map Call_extract_data us)"
proof (cases "truthy urls")
  case True
  with extract_loop_frame [of env "the urls" "[]" st] show ?thesis
    by (auto simp: run_extract_def)
next
  case False
  have "trace st = trace st @ map Call_extract_data []" by simp
  with False show ?thesis
    unfolding run_extract_def by (simp del: list.map append_Nil2)
qed

lemma run_extract_ok:
  assumes "extract_results env (url_list urls) (strategy st) = Some (ds, s1)"
  shows "run_extract env urls st =
           (Inr (concat ds),
            st\<lparr>strategy := s1, trace := trace st @ map Call_extract_data (url_list urls)\<rparr>)"
proof (cases urls)
  case None
  with assms show ?thesis by (simp add: run_extract_def)
next
  case (Some us)
  show ?thesis
  proof (cases "us = []")
    case True
    with Some assms show ?thesis by (simp add: run_extract_def)
  next
    case False
    with Some assms extract_loop_ok [of env us st ds s1 "[]"] show ?thesis
      by (simp add: run_extract_def)
  qed
qed

lemma run_extract_raises:
  assumes "extract_results env pre (strategy st) = Some (ds, s1)"
    and "extract_data env u s1 = (Inl e, s2)"
  shows "run_extract env (Some (pre @ u # post)) st =
           (Inl e, st\<lparr>strategy := s2, trace := trace st @ map Call_extract_data (pre @ [u])\<rparr>)"
  using extract_loop_raises [OF assms, of post "[]"] by (simp add: run_extract_def)

lemma run_extract_no_urls: "run_extract env (Some []) = run_extract env None"
  by (rule ext) (simp add: run_extract_def)

lemma run_except_fields:
  "page (run_except r st) = page st"
  "browser (run_except r st) = browser st"
  "strategy (run_except r st) = strategy st"
  by (simp_all add: run_except_def emit_def split: sum.splits)

lemma run_except_trace:
  "\<exists>logs. trace (run_except r st) = trace st @ logs \<and> Call_close_browser \<notin> set logs
     \<and> auth_calls logs = [] \<and> extract_calls logs = []"
  by (simp add: run_except_def emit_def split: sum.splits)

lemma run_except_resources:
  "\<exists>logs. trace (run_except r st) = trace st @ logs \<and> resource_events logs = []"
  by (simp add: run_except_def emit_def split: sum.splits)

lemma run_try_raises_early:
  "fst (init_browser env st) = Inl e \<Longrightarrow> run_try env creds urls st = (Inl e, snd (init_browser env st))"
  by (cases "init_browser env st") (simp add: run_try_def)

lemma run_try_after_init:
  assumes "fst (init_browser env st) = Inr ()"
  shows "\<exists>rest. trace (snd (run_try env creds urls st)) =
            trace (snd (init_browser env st))
              @ (if truthy creds then [Call_authenticate (the creds)] else []) @ rest
          \<and> auth_calls rest = [] \<and> Call_close_browser \<notin> set rest
          \<and> page (snd (run_try env creds urls st)) = page (snd (init_browser env st))
          \<and> browser (snd (run_try env creds urls st)) = browser (snd (init_browser env st))"
proof -
  obtain st1 where i: "init_browser env st = (Inr (), st1)"
    using assms by (cases "init_browser env st") auto
  show ?thesis
  proof (cases "truthy creds")
    case False
    with i have "run_try env creds urls st = run_extract env urls st1"
      by (simp add: run_try_def)
    with False i run_extract_frame [of env urls st1] show ?thesis by auto
  next
    case True
    let ?st2 = "emit [Call_authenticate (the creds)] st1"
    obtain r s' where a: "authenticate env (the creds) (strategy ?st2) = (r, s')"
      by (cases "authenticate env (the creds) (strategy ?st2)") auto
    show ?thesis
    proof (cases r)
      case (Inl e)
      with True i a show ?thesis by (simp add: run_try_def emit_def)
    next
      case (Inr ok)
      show ?thesis
      proof (cases ok)
        case False
        with True i a Inr show ?thesis by (simp add: run_try_def emit_def)
      next
        case ok: True
        with True i a Inr have "run_try env creds urls st = run_extract env urls (?st2\<lparr>strategy := s'\<rparr>)"
          by (simp add: run_try_def Let_def)
        with True i run_extract_frame [of env urls "?st2\<lparr>strategy := s'\<rparr>"] show ?thesis
          by (auto simp: emit_def)
      qed
    qed
  qed
qed

lemma run_try_trace:
  "\<exists>evs. trace (snd (run_try env creds urls st)) = trace st @ evs \<and> Call_close_browser \<notin> set evs"
proof (cases "fst (init_browser env st)")
  case (Inl e)
  with run_try_raises_early [of env st e creds urls] init_browser_trace [of env st]
  show ?thesis by auto
next
  case (Inr u)
  then have ok: "fst (init_browser env st) = Inr ()" by simp
  from run_try_after_init [OF ok, of creds urls] init_browser_trace [of env st]
  show ?thesis by (auto split: if_splits)
qed

lemma run_try_fields:
  assumes "fst (init_browser env st) = Inr ()"
  shows "fst (close_browser env (snd (run_try env creds urls st)))
           = fst (close_browser env (snd (init_browser env st)))"
  using run_try_after_init [OF assms, of creds urls]
  by (intro close_browser_fst_cong) auto

lemma run_try_auth_passes:
  assumes "fst (init_browser env st) = Inr ()"
    and "auth_passes env creds (strategy st) = Some s0"
  shows "run_try env creds urls st =
           run_extract env urls
             ((snd (init_browser env st))
                \<lparr>trace := trace (snd (init_browser env st))
                            @ (if truthy creds then [Call_authenticate (the creds)] else []),
                 strategy := s0\<rparr>)"
proof -
  obtain st1 where i: "init_browser env st = (Inr (), st1)"
    using assms(1) by (cases "init_browser env st") auto
  have s: "strategy st1 = strategy st"
    using init_browser_strategy [of env st] i by simp
  show ?thesis
  proof (cases "truthy creds")
    case False
    with assms(2) have "s0 = strategy st" by (simp add: auth_passes_def)
    moreover have "st1\<lparr>strategy := strategy st\<rparr> = st1"
      unfolding s [symmetric] by simp
    ultimately show ?thesis using False i by (simp add: run_try_def)
  next
    case True
    with assms(2) s have "authenticate env (the creds) (strategy st1) = (Inr True, s0)"
      by (auto simp: auth_passes_def split: prod.splits sum.splits if_splits)
    with True i show ?thesis by (simp add: run_try_def emit_def)
  qed
qed

lemma run_try_auth_fails:
  assumes "fst (init_browser env st) = Inr ()"
    and "truthy creds"
    and "fst (authenticate env (the creds) (strategy st)) = Inr False"
  shows "fst (run_try env creds urls st) = Inr []"
    and "try_events env creds urls st =
           drop (length (trace st)) (trace (snd (init_browser env st)))
             @ [Call_authenticate (the creds),
                Log ERROR (log_prefix st @ '' authentication failed'')]"
proof -
  obtain st1 where i: "init_browser env st = (Inr (), st1)"
    using assms(1) by (cases "init_browser env st") auto
  have s: "strategy st1 = strategy st"
    using init_browser_strategy [of env st] i by simp
  obtain evs where e: "trace st1 = trace st @ evs"
    using init_browser_trace [of env st] i by auto
  have n: "site_name st1 = site_name st"
    using init_browser_ok [OF assms(1)] i by simp
  obtain s' where a: "authenticate env (the creds) (strategy st1) = (Inr False, s')"
    using assms(3) s by (cases "authenticate env (the creds) (strategy st)") auto
  from i a assms(2) show "fst (run_try env creds urls st) = Inr []"
    by (simp add: run_try_def emit_def)
  from i a assms(2) e n show "try_events env creds urls st =
           drop (length (trace st)) (trace (snd (init_browser env st)))
             @ [Call_authenticate (the creds),
                Log ERROR (log_prefix st @ '' authentication failed'')]"
    by (simp add: run_try_def try_events_def emit_def log_prefix_def)
qed

lemma run_try_nothing_to_do:
  assumes "fst (init_browser env st) = Inr ()"
  shows "run_try env None None st = (Inr [], snd (init_browser env st))"
  using assms by (cases "init_browser env st") (simp add: run_try_def run_extract_def)

lemma run_trace:
  "trace (snd (run env creds urls st)) =
     trace (snd (close_browser env (run_except (fst (run_try env creds urls st))
                                      (snd (run_try env creds urls st)))))"
  by (simp add: run_def split: prod.splits sum.splits)

lemma run_snd:
  "snd (run env creds urls st) =
     snd (close_browser env (run_except (fst (run_try env creds urls st))
                                      (snd (run_try env creds urls st))))"
  by (simp add: run_def split: prod.splits sum.splits)

lemma run_fst:
  "fst (run env creds urls st) =
     (case fst (close_browser env (snd (run_try env creds urls st))) of
        Inl e \<Rightarrow> Inl e
      | Inr u \<Rightarrow> fst (run_try env creds urls st))"
proof -
  obtain r st1 where t: "run_try env creds urls st = (r, st1)"
    by (cases "run_try env creds urls st") auto
  obtain c st2 where c: "close_browser env (run_except r st1) = (c, st2)"
    by (cases "close_browser env (run_except r st1)") auto
  have "fst (close_browser env (run_except r st1)) = fst (close_browser env st1)"
    by (rule close_browser_fst_cong) (simp_all add: run_except_fields)
  with c have "fst (close_browser env st1) = c" by simp
  with t c show ?thesis
    by (cases c) (simp_all add: run_def)
qed

lemma run_trace_split:
  "\<exists>pre post. trace (snd (run env creds urls st)) = trace st @ pre @ Call_close_browser # post
     \<and> Call_close_browser \<notin> set pre \<and> Call_close_browser \<notin> set post
     \<and> auth_calls post = [] \<and> extract_calls post = []"
proof -
  let ?r = "fst (run_try env creds urls st)" and ?st1 = "snd (run_try env creds urls st)"
  obtain evs where 1: "trace ?st1 = trace st @ evs" "Call_close_browser \<notin> set evs"
    using run_try_trace by blast
  obtain logs where 2: "trace (run_except ?r ?st1) = trace ?st1 @ logs"
      "Call_close_browser \<notin> set logs"
    using run_except_trace by blast
  obtain post where 3:
      "trace (snd (close_browser env (run_except ?r ?st1)))
         = trace (run_except ?r ?st1) @ Call_close_browser # post"
      "Call_close_browser \<notin> set post" "auth_calls post = []" "extract_calls post = []"
    using close_browser_trace by blast
  have "trace (snd (run env creds urls st)) = trace st @ (evs @ logs) @ Call_close_browser # post"
    using 1 2 3 by (simp add: run_trace)
  moreover have "Call_close_browser \<notin> set (evs @ logs)" using 1 2 by simp
  ultimately show ?thesis using 3 by blast
qed

lemma run_events_try_events:
  "\<exists>logs post. run_events env creds urls st =
      try_events env creds urls st @ logs @ Call_close_browser # post
    \<and> auth_calls logs = [] \<and> extract_calls logs = []
    \<and> auth_calls post = [] \<and> extract_calls post = []"
proof -
  let ?r = "fst (run_try env creds urls st)" and ?st1 = "snd (run_try env creds urls st)"
  obtain evs where 1: "trace ?st1 = trace st @ evs"
    using run_try_trace by blast
  obtain logs where 2: "trace (run_except ?r ?st1) = trace ?st1 @ logs"
      "auth_calls logs = []" "extract_calls logs = []"
    using run_except_trace by blast
  obtain post where 3:
      "trace (snd (close_browser env (run_except ?r ?st1)))
         = trace (run_except ?r ?st1) @ Call_close_browser # post"
      "auth_calls post = []" "extract_calls post = []"
    using close_browser_trace by blast
  have "run_events env creds urls st = try_events env creds urls st @ logs @ Call_close_browser # post"
    using 1 2(1) 3(1) by (simp add: run_events_def try_events_def run_trace)
  with 2 3 show ?thesis by blast
qed

lemma run_events_calls:
  "extract_calls (run_events env creds urls st) = extract_calls (try_events env creds urls st)"
  "auth_calls (run_events env creds urls st) = auth_calls (try_events env creds urls st)"
proof -
  obtain logs post where "run_events env creds urls st =
      try_events env creds urls st @ logs @ Call_close_browser # post"
    "auth_calls logs = []" "extract_calls logs = []"
    "auth_calls post = []" "extract_calls post = []"
    using run_events_try_events by blast
  then show "extract_calls (run_events env creds urls st) = extract_calls (try_events env creds urls st)"
    "auth_calls (run_events env creds urls st) = auth_calls (try_events env creds urls st)"
    by simp_all
qed

lemma try_events_auth_passes:
  assumes "fst (init_browser env st) = Inr ()"
    and "auth_passes env creds (strategy st) = Some s0"
    and "run_extract env urls
           ((snd (init_browser env st))
              \<lparr>trace := trace (snd (init_browser env st))
                          @ (if truthy creds then [Call_authenticate (the creds)] else []),
               strategy := s0\<rparr>) = (r, st2)"
    and "trace st2 = trace (snd (init_browser env st))
                       @ (if truthy creds then [Call_authenticate (the creds)] else [])
                       @ map Call_extract_data us"
  shows "fst (run_try env creds urls st) = r"
    and "extract_calls (try_events env creds urls st) = us"
    and "auth_calls (try_events env creds urls st) = (if truthy creds then [the creds] else [])"
proof -
  have t: "run_try env creds urls st = (r, st2)"
    using run_try_auth_passes [OF assms(1,2), of urls] assms(3) by simp
  then show "fst (run_try env creds urls st) = r" by simp
  obtain evs where e: "trace (snd (init_browser env st)) = trace st @ evs"
     "auth_calls evs = []" "extract_calls evs = []"
    using init_browser_trace [of env st] by auto
  from t e assms(4) show "extract_calls (try_events env creds urls st) = us"
    by (simp add: try_events_def)
  from t e assms(4) show "auth_calls (try_events env creds urls st) = (if truthy creds then [the creds] else [])"
    by (simp add: try_events_def)
qed

lemma run_try_resources:
  assumes "fst (init_browser env st) = Inr ()"
  shows "resource_events (try_events env creds urls st) =
           [Browser_created (next_handle st), Page_created (Suc (next_handle st))]"
proof -
  obtain st1 where i: "init_browser env st = (Inr (), st1)"
    using assms by (cases "init_browser env st") auto
  have st1: "trace st1 = trace st @
                [Call_playwright_start, Call_launch (headless st),
                 Browser_created (next_handle st), Call_new_page (next_handle st),
                 Page_created (Suc (next_handle st)),
                 Log INFO (log_prefix st @ '' completed browser initialization'')]"
    using init_browser_ok [OF assms] i by simp
  show ?thesis
  proof (cases "truthy creds")
    case False
    with i have "run_try env creds urls st = run_extract env urls st1"
      by (simp add: run_try_def)
    with st1 run_extract_frame [of env urls st1] show ?thesis
      by (auto simp: try_events_def)
  next
    case True
    let ?st2 = "emit [Call_authenticate (the creds)] st1"
    obtain r s' where a: "authenticate env (the creds) (strategy ?st2) = (r, s')"
      by (cases "authenticate env (the creds) (strategy ?st2)") auto
    show ?thesis
    proof (cases r)
      case (Inl e)
      with True i a st1 show ?thesis by (simp add: run_try_def emit_def try_events_def)
    next
      case (Inr ok)
      show ?thesis
      proof (cases ok)
        case False
        with True i a Inr st1 show ?thesis by (simp add: run_try_def emit_def try_events_def)
      next
        case ok: True
        with True i a Inr have "run_try env creds urls st = run_extract env urls (?st2\<lparr>strategy := s'\<rparr>)"
          by (simp add: run_try_def Let_def)
        with st1 run_extract_frame [of env urls "?st2\<lparr>strategy := s'\<rparr>"] show ?thesis
          by (auto simp: emit_def try_events_def)
      qed
    qed
  qed
qed

lemma run_no_urls:
  "run env creds (Some []) st = run env creds None st"
  unfolding run_def run_try_def run_extract_no_urls by (rule refl)

lemma run_resources:
  assumes "fst (init_browser env st) = Inr ()"
    and "fst (close_browser env (snd (init_browser env st))) = Inr ()"
  shows "resource_events (run_events env creds urls st) =
           [Browser_created (next_handle st), Page_created (Suc (next_handle st)),
            Page_closed (Suc (next_handle st)), Browser_closed (next_handle st)] \<and>
         browser (snd (run env creds urls st)) = Some (next_handle st) \<and>
         page (snd (run env creds urls st)) = Some (Suc (next_handle st))"
proof -
  let ?r = "fst (run_try env creds urls st)" and ?st1 = "snd (run_try env creds urls st)"
  let ?st2 = "run_except ?r ?st1"
  let ?b = "next_handle st" and ?p = "Suc (next_handle st)"
  have g: "page (snd (init_browser env st)) = Some ?p"
    "browser (snd (init_browser env st)) = Some ?b"
    by (simp_all add: init_browser_ok [OF assms(1)])
  have h: "page ?st1 = page (snd (init_browser env st))"
    "browser ?st1 = browser (snd (init_browser env st))"
    using run_try_after_init [OF assms(1), of creds urls] by blast+
  have f: "page ?st2 = Some ?p" "browser ?st2 = Some ?b"
    using g h by (simp_all add: run_except_fields)
  have "fst (close_browser env ?st2) = fst (close_browser env (snd (init_browser env st)))"
    using f g by (intro close_browser_fst_cong) simp_all
  with assms(2) have c: "fst (close_browser env ?st2) = Inr ()" by simp
  note cl = close_browser_ok [OF f c]
  obtain evs where 1: "trace ?st1 = trace st @ evs"
    using run_try_trace by blast
  then have t: "try_events env creds urls st = evs" by (simp add: try_events_def)
  obtain logs where 2: "trace ?st2 = trace ?st1 @ logs" "resource_events logs = []"
    using run_except_resources by blast
  have "run_events env creds urls st = evs @ logs @
          [Call_close_browser, Call_page_close ?p, Page_closed ?p,
           Call_browser_close ?b, Browser_closed ?b,
           Log INFO (log_prefix ?st2 @ '' the browser has been closed'')]"
    using 1 2(1) cl by (simp add: run_events_def run_snd)
  then have "resource_events (run_events env creds urls st) =
               [Browser_created ?b, Page_created ?p, Page_closed ?p, Browser_closed ?b]"
    using run_try_resources [OF assms(1), of creds urls] t 2(2) by simp
  moreover have "browser (snd (run env creds urls st)) = Some ?b"
    "page (snd (run env creds urls st)) = Some ?p"
    using f by (simp_all add: run_snd close_browser_fields)
  ultimately show ?thesis by simp
qed

section \<open>The claims\<close>

subsection \<open>C1: the browser is closed exactly once\<close>



subsection \<open>C2: the result is the concatenation, in URL order\<close>

text \<open>
  Claim C2, as stated, promises the concatenation whenever every call of
  \<^verbatim>\<open>extract_data\<close> returns normally. The \<^verbatim>\<open>finally\<close> block stands between
  the \<^verbatim>\<open>return all_data\<close> and the caller: in \<open>closing_fails_env\<close> both pages
  are extracted without error, and the run still ends in the exception of
  \<^verbatim>\<open>page.close()\<close>.
\<close>

theorem run_returns_concatenation_counterexample:
  "fst (init_browser closing_fails_env fresh_scraper) = Inr () \<and>
   extract_results closing_fails_env [''/a'', ''/b''] 0 = Some ([[1], [2, 3]], 2) \<and>
   fst (run closing_fails_env None (Some [''/a'', ''/b'']) fresh_scraper)
     = Inl (Exception ''page crashed'')"
  by (simp add: model_defs)

text \<open>
  Claim C2, amended. When browser acquisition succeeds, authentication (if the
  credentials are non-empty, so that it is performed) succeeds, every call of
  \<^verbatim>\<open>extract_data\<close> returns normally and \<^verbatim>\<open>close_browser\<close> does not raise,
  \<open>run\<close> returns exactly the concatenation of the record lists that
  \<^verbatim>\<open>extract_data\<close> produced for \<open>urls[0]\<close>, \<open>urls[1]\<close>, \<dots> in that order, and
  \<^verbatim>\<open>extract_data\<close> was called on exactly these URLs in the given order.
\<close>

theorem run_returns_concatenation:
  assumes "fst (init_browser env st) = Inr ()"
    and "auth_passes env creds (strategy st) = Some s0"
    and "extract_results env (url_list urls) s0 = Some (ds, s1)"
    and "fst (close_browser env (snd (init_browser env st))) = Inr ()"
  shows "fst (run env creds urls st) = Inr (concat ds) \<and>
         extract_calls (run_events env creds urls st) = url_list urls"
proof -
  let ?st1 = "(snd (init_browser env st))
              \<lparr>trace := trace (snd (init_browser env st))
                          @ (if truthy creds then [Call_authenticate (the creds)] else []),
               strategy := s0\<rparr>"
  have x: "run_extract env urls ?st1 =
             (Inr (concat ds),
              ?st1\<lparr>strategy := s1, trace := trace ?st1 @ map Call_extract_data (url_list urls)\<rparr>)"
    using assms(3) by (intro run_extract_ok) simp
  have "fst (run_try env creds urls st) = Inr (concat ds)"
    and "extract_calls (try_events env creds urls st) = url_list urls"
    using try_events_auth_passes [OF assms(1,2) x, of "url_list urls"] by simp_all
  with assms(4) run_try_fields [OF assms(1), of creds urls] show ?thesis
    by (simp add: run_fst run_events_calls)
qed

text \<open>The scenario of the specification: two URLs, no credentials, three records.\<close>

theorem run_returns_concatenation_witness:
  "fst (init_browser site_env fresh_scraper) = Inr () \<and>
   auth_passes site_env None (strategy fresh_scraper) = Some 0 \<and>
   extract_results site_env (url_list (Some [''/a'', ''/b''])) 0 = Some ([[1], [2, 3]], 2) \<and>
   fst (close_browser site_env (snd (init_browser site_env fresh_scraper))) = Inr () \<and>
   fst (run site_env None (Some [''/a'', ''/b'']) fresh_scraper) = Inr [1, 2, 3] \<and>
   extract_calls (run_events site_env None (Some [''/a'', ''/b'']) fresh_scraper)
     = [''/a'', ''/b'']"
proof -
  have 1: "fst (init_browser site_env fresh_scraper) = Inr ()"
    by (simp add: model_defs)
  have 2: "auth_passes site_env None (strategy fresh_scraper) = Some 0"
    by (simp add: model_defs)
  have 3: "extract_results site_env (url_list (Some [''/a'', ''/b''])) 0
             = Some ([[1], [2, 3]], 2)"
    by (simp add: model_defs)
  have 4: "fst (close_browser site_env (snd (init_browser site_env fresh_scraper))) = Inr ()"
    by (simp add: model_defs)
  from run_returns_concatenation [OF 1 2 3 4] 1 2 3 4 show ?thesis by simp
qed

subsection \<open>C3: a failed authentication gives the empty result\<close>

text \<open>
  Claim C3, as stated, promises a normal return with the empty list whenever
  \<^verbatim>\<open>authenticate\<close> returns false. The \<^verbatim>\<open>return []\<close> of line 82 passes
  through the \<^verbatim>\<open>finally\<close> block as well: with the credentials of the
  specification's scenario, which the site rejects, and a \<^verbatim>\<open>page.close()\<close> that
  raises, the run raises.
\<close>

theorem run_auth_false_counterexample:
  "truthy (Some [(''user'', ''x''), (''pass'', ''y'')]) \<and>
   fst (authenticate closing_fails_env [(''user'', ''x''), (''pass'', ''y'')]
          (strategy fresh_scraper)) = Inr False \<and>
   fst (run closing_fails_env (Some [(''user'', ''x''), (''pass'', ''y'')]) (Some [''/a''])
          fresh_scraper) = Inl (Exception ''page crashed'')"
  by (simp add: model_defs)

text \<open>
  Claim C3, amended. In every run where non-empty credentials are provided, browser
  acquisition succeeds and \<^verbatim>\<open>authenticate\<close> returns false, \<^verbatim>\<open>extract_data\<close>
  is never invoked, and \<open>run\<close> returns the empty sequence without raising unless
  \<^verbatim>\<open>close_browser\<close> raises; in that case \<open>run\<close> raises the exception of
  \<^verbatim>\<open>close_browser\<close>.
\<close>

theorem run_auth_false_returns_empty_unless_close_raises:
  assumes "fst (init_browser env st) = Inr ()"
    and "truthy creds"
    and "fst (authenticate env (the creds) (strategy st)) = Inr False"
  shows "extract_calls (run_events env creds urls st) = [] \<and>
         fst (run env creds urls st) =
           (case fst (close_browser env (snd (init_browser env st))) of
              Inl e \<Rightarrow> Inl e
            | Inr u \<Rightarrow> Inr [])"
  using run_try_auth_fails [OF assms, of urls] run_try_fields [OF assms(1), of creds urls]
  by (simp add: run_events_calls run_fst init_events_calls split: sum.splits)

theorem run_auth_false_returns_empty_unless_close_raises_witness:
  "fst (init_browser site_env fresh_scraper) = Inr () \<and>
   truthy (Some [(''user'', ''x''), (''pass'', ''y'')]) \<and>
   fst (authenticate site_env (the (Some [(''user'', ''x''), (''pass'', ''y'')]))
          (strategy fresh_scraper)) = Inr False \<and>
   extract_calls (run_events site_env (Some [(''user'', ''x''), (''pass'', ''y'')])
                    (Some [''/a'', ''/b'']) fresh_scraper) = [] \<and>
   fst (run site_env (Some [(''user'', ''x''), (''pass'', ''y'')]) (Some [''/a'', ''/b''])
          fresh_scraper) = Inr []"
proof -
  let ?c = "Some [(''user'', ''x''), (''pass'', ''y'')]"
  have 1: "fst (init_browser site_env fresh_scraper) = Inr ()"
    by (simp add: model_defs)
  have 2: "truthy ?c" by simp
  have 3: "fst (authenticate site_env (the ?c) (strategy fresh_scraper)) = Inr False"
    by (simp add: model_defs)
  have 4: "fst (close_browser site_env (snd (init_browser site_env fresh_scraper))) = Inr ()"
    by (simp add: model_defs)
  from run_auth_false_returns_empty_unless_close_raises
         [OF 1 2 3, of "Some [''/a'', ''/b'']"] 1 2 3 4
  show ?thesis by simp
qed

subsection \<open>C4: an extraction error ends the run\<close>

text \<open>
  Claim C4, as stated, has \<open>run\<close> propagate the error of \<^verbatim>\<open>extract_data\<close>. An
  exception raised in the \<^verbatim>\<open>finally\<close> block replaces the one in flight: below,
  \<^verbatim>\<open>extract_data\<close> raises on the second of three URLs, \<^verbatim>\<open>page.close()\<close>
  raises afterwards, and the caller sees the second exception, not the first.
\<close>

theorem run_extract_error_counterexample:
  "extract_results closing_fails_env [''/a''] 0 = Some ([[1]], 1) \<and>
   fst (extract_data closing_fails_env ''/zzz'' 1) = Inl (Exception ''no such page'') \<and>
   fst (run closing_fails_env None (Some [''/a'', ''/zzz'', ''/b'']) fresh_scraper)
     = Inl (Exception ''page crashed'')"
  by (simp add: model_defs)

text \<open>
  Claim C4, amended. In every run in which browser acquisition succeeds, the
  authentication step lets the run go on, and \<^verbatim>\<open>extract_data\<close> raises on the
  \<open>k\<close>-th URL after returning normally on the URLs before it: \<^verbatim>\<open>extract_data\<close> is
  invoked on the first \<open>k\<close> URLs and on no later one, \<^verbatim>\<open>close_browser\<close> is invoked
  once, and \<open>run\<close> raises, so no record of an earlier URL is returned. The exception
  raised is that of \<^verbatim>\<open>extract_data\<close> unless \<^verbatim>\<open>close_browser\<close> raises, whose
  exception is raised instead.
\<close>

theorem run_extract_error_propagates_unless_close_raises:
  assumes "fst (init_browser env st) = Inr ()"
    and "auth_passes env creds (strategy st) = Some s0"
    and "extract_results env pre s0 = Some (ds, s1)"
    and "fst (extract_data env u s1) = Inl e"
  shows "extract_calls (run_events env creds (Some (pre @ u # post)) st) = pre @ [u] \<and>
         count_list (run_events env creds (Some (pre @ u # post)) st) Call_close_browser = 1 \<and>
         fst (run env creds (Some (pre @ u # post)) st) =
           (case fst (close_browser env (snd (init_browser env st))) of
              Inl e' \<Rightarrow> Inl e'
            | Inr x \<Rightarrow> Inl e)"
proof -
  let ?urls = "Some (pre @ u # post)"
  let ?st1 = "(snd (init_browser env st))
              \<lparr>trace := trace (snd (init_browser env st))
                          @ (if truthy creds then [Call_authenticate (the creds)] else []),
               strategy := s0\<rparr>"
  obtain s2 where d: "extract_data env u s1 = (Inl e, s2)"
    using assms(4) by (cases "extract_data env u s1") auto
  have x: "run_extract env ?urls ?st1 =
             (Inl e, ?st1\<lparr>strategy := s2, trace := trace ?st1 @ map Call_extract_data (pre @ [u])\<rparr>)"
    using assms(3) d by (intro run_extract_raises) simp_all
  have "fst (run_try env creds ?urls st) = Inl e"
    and "extract_calls (try_events env creds ?urls st) = pre @ [u]"
    using try_events_auth_passes [OF assms(1,2) x, of "pre @ [u]"] by simp_all
  moreover have "count_list (run_events env creds ?urls st) Call_close_browser = 1"
  proof -
    obtain a b where s:
      "trace (snd (run env creds ?urls st)) = trace st @ a @ Call_close_browser # b"
      "Call_close_browser \<notin> set a" "Call_close_browser \<notin> set b"
      using run_trace_split by blast
    then have "run_events env creds ?urls st = a @ Call_close_browser # b"
      by (simp add: run_events_def)
    with s(2,3) show ?thesis by (simp add: count_list_0_iff)
  qed
  ultimately show ?thesis
    using run_try_fields [OF assms(1), of creds ?urls]
    by (simp add: run_fst run_events_calls split: sum.splits)
qed

text \<open>
  The scenario of the specification: the second of three URLs raises. The third is not
  tried, and the record of the first is not returned.
\<close>

theorem run_extract_error_propagates_unless_close_raises_witness:
  "fst (init_browser site_env fresh_scraper) = Inr () \<and>
   auth_passes site_env None (strategy fresh_scraper) = Some 0 \<and>
   extract_results site_env [''/a''] 0 = Some ([[1]], 1) \<and>
   fst (extract_data site_env ''/zzz'' 1) = Inl (Exception ''no such page'') \<and>
   extract_calls (run_events site_env None (Some ([''/a''] @ ''/zzz'' # [''/b''])) fresh_scraper)
     = [''/a'', ''/zzz''] \<and>
   count_list (run_events site_env None (Some ([''/a''] @ ''/zzz'' # [''/b''])) fresh_scraper)
     Call_close_browser = 1 \<and>
   fst (run site_env None (Some ([''/a''] @ ''/zzz'' # [''/b''])) fresh_scraper)
     = Inl (Exception ''no such page'')"
proof -
  have 1: "fst (init_browser site_env fresh_scraper) = Inr ()"
    by (simp add: model_defs)
  have 2: "auth_passes site_env None (strategy fresh_scraper) = Some 0"
    by (simp add: model_defs)
  have 3: "extract_results site_env [''/a''] 0 = Some ([[1]], 1)"
    by (simp add: model_defs)
  have 4: "fst (extract_data site_env ''/zzz'' 1) = Inl (Exception ''no such page'')"
    by (simp add: model_defs)
  have 5: "fst (close_browser site_env (snd (init_browser site_env fresh_scraper))) = Inr ()"
    by (simp add: model_defs)
  from run_extract_error_propagates_unless_close_raises [OF 1 2 3 4, of "[''/b'']"] 1 2 3 4 5
  show ?thesis by simp
qed

subsection \<open>C5: what \<^verbatim>\<open>close_browser\<close> does when closing fails\<close>

text \<open>
  Claim C5, as stated, has \<^verbatim>\<open>close_browser\<close> never raise and never mask the outcome
  of the run. The method has no handler: when \<^verbatim>\<open>page.close()\<close> raises,
  \<^verbatim>\<open>close_browser\<close> raises, and a run whose \<^verbatim>\<open>try\<close> block had returned one
  record ends in that exception.
\<close>

theorem close_browser_never_raises_counterexample:
  "fst (close_browser closing_fails_env (snd (init_browser closing_fails_env fresh_scraper)))
     = Inl (Exception ''page crashed'') \<and>
   fst (run_try closing_fails_env None (Some [''/a'']) fresh_scraper) = Inr [1] \<and>
   fst (run closing_fails_env None (Some [''/a'']) fresh_scraper)
     = Inl (Exception ''page crashed'')"
  by (simp add: model_defs)

text \<open>
  Claim C5, amended. \<^verbatim>\<open>close_browser\<close> returns normally exactly when every close it
  performs completes; otherwise it raises the exception of the first close that fails,
  the page's before the browser's. When \<^verbatim>\<open>page.close()\<close> raises,
  \<^verbatim>\<open>close_browser\<close> ends there: \<^verbatim>\<open>browser.close()\<close> is not attempted and
  the closing line is not logged. In \<open>run\<close>, an exception of \<^verbatim>\<open>close_browser\<close>
  is raised to the caller in place of the result or the error of the \<^verbatim>\<open>try\<close>
  block; when \<^verbatim>\<open>close_browser\<close> returns normally, that result or error is the
  outcome of the run.
\<close>

theorem close_browser_raises_and_masks:
  "fst (close_browser env st) =
     (let closing_browser =
        (case browser st of
           None \<Rightarrow> Inr ()
         | Some b \<Rightarrow> (case browser_close_exn env b of None \<Rightarrow> Inr () | Some e \<Rightarrow> Inl e))
      in case page st of
           None \<Rightarrow> closing_browser
         | Some p \<Rightarrow> (case page_close_exn env p of None \<Rightarrow> closing_browser | Some e \<Rightarrow> Inl e))
   \<and> fst (run env creds urls st) =
       (case fst (close_browser env (snd (run_try env creds urls st))) of
          Inl e \<Rightarrow> Inl e
        | Inr u \<Rightarrow> fst (run_try env creds urls st))
   \<and> (page st = Some p \<and> page_close_exn env p = Some e \<longrightarrow>
        close_browser env st = (Inl e, emit [Call_close_browser, Call_page_close p] st))"
proof (intro conjI impI)
  show "fst (close_browser env st) =
     (let closing_browser =
        (case browser st of
           None \<Rightarrow> Inr ()
         | Some b \<Rightarrow> (case browser_close_exn env b of None \<Rightarrow> Inr () | Some e \<Rightarrow> Inl e))
      in case page st of
           None \<Rightarrow> closing_browser
         | Some p \<Rightarrow> (case page_close_exn env p of None \<Rightarrow> closing_browser | Some e \<Rightarrow> Inl e))"
    by (simp add: close_browser_def page_close_def browser_close_def emit_def Let_def
        split: option.splits)
  show "fst (run env creds urls st) =
       (case fst (close_browser env (snd (run_try env creds urls st))) of
          Inl e \<Rightarrow> Inl e
        | Inr u \<Rightarrow> fst (run_try env creds urls st))"
    by (rule run_fst)
  assume "page st = Some p \<and> page_close_exn env p = Some e"
  then show "close_browser env st = (Inl e, emit [Call_close_browser, Call_page_close p] st)"
    by (simp add: close_browser_def page_close_def emit_def Let_def)
qed

text \<open>
  The theorem at a run in which nothing fails: the three records arrive. And at a
  controller holding browser 0 and page 1 whose \<^verbatim>\<open>page.close()\<close> raises: the trace
  ends with the call of \<^verbatim>\<open>page.close()\<close>, and \<^verbatim>\<open>browser.close()\<close> is not
  called.
\<close>

theorem close_browser_raises_and_masks_witness:
  "fst (close_browser site_env (snd (run_try site_env None (Some [''/a'', ''/b'']) fresh_scraper)))
     = Inr () \<and>
   fst (run site_env None (Some [''/a'', ''/b'']) fresh_scraper) = Inr [1, 2, 3] \<and>
   page (fresh_scraper\<lparr>browser := Some 0, page := Some 1\<rparr>) = Some 1 \<and>
   page_close_exn closing_fails_env 1 = Some (Exception ''page crashed'') \<and>
   fst (close_browser closing_fails_env (fresh_scraper\<lparr>browser := Some 0, page := Some 1\<rparr>))
     = Inl (Exception ''page crashed'') \<and>
   trace (snd (close_browser closing_fails_env
                 (fresh_scraper\<lparr>browser := Some 0, page := Some 1\<rparr>)))
     = [Call_close_browser, Call_page_close 1]"
proof -
  let ?st = "fresh_scraper\<lparr>browser := Some 0, page := Some 1\<rparr>"
  have 1: "fst (close_browser site_env
                  (snd (run_try site_env None (Some [''/a'', ''/b'']) fresh_scraper))) = Inr ()"
    by (simp add: model_defs)
  have 2: "fst (run_try site_env None (Some [''/a'', ''/b'']) fresh_scraper) = Inr [1, 2, 3]"
    by (simp add: model_defs)
  have 3: "page ?st = Some 1" by simp
  have 4: "page_close_exn closing_fails_env 1 = Some (Exception ''page crashed'')"
    by (simp add: closing_fails_env_def)
  have 5: "trace ?st = []"
    by (simp add: fresh_scraper_def init_scraper_def)
  from close_browser_raises_and_masks
         [where env = site_env and st = fresh_scraper and creds = None
            and urls = "Some [''/a'', ''/b'']"]
  have "fst (run site_env None (Some [''/a'', ''/b'']) fresh_scraper) =
          (case fst (close_browser site_env
                       (snd (run_try site_env None (Some [''/a'', ''/b'']) fresh_scraper))) of
             Inl e \<Rightarrow> Inl e
           | Inr u \<Rightarrow> fst (run_try site_env None (Some [''/a'', ''/b'']) fresh_scraper))"
    by blast
  with 1 2 have a: "fst (run site_env None (Some [''/a'', ''/b'']) fresh_scraper) = Inr [1, 2, 3]"
    by simp
  from close_browser_raises_and_masks
         [where env = closing_fails_env and st = ?st and p = 1
            and e = "Exception ''page crashed''"] 3 4
  have "close_browser closing_fails_env ?st
          = (Inl (Exception ''page crashed''), emit [Call_close_browser, Call_page_close 1] ?st)"
    by blast
  then have b: "fst (close_browser closing_fails_env ?st) = Inl (Exception ''page crashed'')"
    "trace (snd (close_browser closing_fails_env ?st)) = [Call_close_browser, Call_page_close 1]"
    using 5 by (simp_all add: emit_def)
  from 1 a 3 4 b show ?thesis by simp
qed

subsection \<open>C6: when \<^verbatim>\<open>authenticate\<close> is called\<close>

text \<open>
  Claim C6, as stated, has \<^verbatim>\<open>authenticate\<close> invoked for every supplied mapping,
  "including an empty mapping". Line 78 reads \<^verbatim>\<open>if credentials:\<close>, and an empty
  dictionary is false: with \<open>Some []\<close> the run goes straight to the extraction.
\<close>

theorem run_authenticates_counterexample:
  "auth_calls (run_events site_env (Some []) (Some [''/a'']) fresh_scraper) = [] \<and>
   fst (run site_env (Some []) (Some [''/a'']) fresh_scraper) = Inr [1]"
  by (simp add: model_defs)

text \<open>
  Claim C6, amended. In every run whose browser acquisition succeeded,
  \<^verbatim>\<open>authenticate\<close> is invoked if and only if a non-empty credentials mapping was
  supplied: then exactly once, with that mapping, and before any extraction; when the
  credentials are omitted or empty, \<^verbatim>\<open>authenticate\<close> is never invoked and the
  extraction follows the acquisition directly: the \<^verbatim>\<open>try\<close> block makes no
  call between them.
\<close>

theorem run_authenticates_iff_credentials_truthy:
  assumes "fst (init_browser env st) = Inr ()"
  shows "auth_calls (run_events env creds urls st) = (if truthy creds then [the creds] else []) \<and>
         (\<exists>pre post. run_events env creds urls st = pre @ post
            \<and> extract_calls pre = [] \<and> auth_calls post = []) \<and>
         (\<not> truthy creds \<longrightarrow>
            (\<exists>us. try_events env creds urls st =
               drop (length (trace st)) (trace (snd (init_browser env st)))
                 @ map Call_extract_data us))"
proof -
  have direct: "\<exists>us. try_events env creds urls st =
               drop (length (trace st)) (trace (snd (init_browser env st)))
                 @ map Call_extract_data us" if f: "\<not> truthy creds"
  proof -
    obtain st1 where i: "init_browser env st = (Inr (), st1)"
      using assms by (cases "init_browser env st") auto
    obtain evs where e: "trace st1 = trace st @ evs"
      using init_browser_trace [of env st] i by auto
    from f i have "run_try env creds urls st = run_extract env urls st1"
      by (simp add: run_try_def)
    moreover obtain us where "trace (snd (run_extract env urls st1))
                                = trace st1 @ map Call_extract_data us"
      using run_extract_frame [of env urls st1] by blast
    ultimately have "try_events env creds urls st =
               drop (length (trace st)) (trace (snd (init_browser env st)))
                 @ map Call_extract_data us"
      using i e by (simp add: try_events_def)
    then show ?thesis by blast
  qed
  obtain evs where e: "trace (snd (init_browser env st)) = trace st @ evs"
     "auth_calls evs = []" "extract_calls evs = []"
    using init_browser_trace [of env st] by auto
  obtain rest where r: "trace (snd (run_try env creds urls st)) =
            trace (snd (init_browser env st))
              @ (if truthy creds then [Call_authenticate (the creds)] else []) @ rest"
       "auth_calls rest = []"
    using run_try_after_init [OF assms, of creds urls] by blast
  obtain logs post where p: "run_events env creds urls st =
      try_events env creds urls st @ logs @ Call_close_browser # post"
    "auth_calls logs = []" "auth_calls post = []"
    using run_events_try_events by blast
  let ?a = "if truthy creds then [Call_authenticate (the creds)] else []"
  have t: "try_events env creds urls st = evs @ ?a @ rest"
    using e r by (simp add: try_events_def)
  have 1: "run_events env creds urls st = (evs @ ?a) @ (rest @ logs @ Call_close_browser # post)"
    using p t by simp
  have 2: "extract_calls (evs @ ?a) = []" using e by simp
  have 3: "auth_calls (rest @ logs @ Call_close_browser # post) = []" using r p by simp
  have "auth_calls (run_events env creds urls st) = (if truthy creds then [the creds] else [])"
    using p t e r by simp
  moreover have "\<exists>pre post. run_events env creds urls st = pre @ post
            \<and> extract_calls pre = [] \<and> auth_calls post = []"
    using 1 2 3 by blast
  ultimately show ?thesis using direct by blast
qed

theorem run_authenticates_iff_credentials_truthy_witness:
  "fst (init_browser site_env fresh_scraper) = Inr () \<and>
   auth_calls (run_events site_env (Some [(''user'', ''x''), (''pass'', ''secret'')])
                 (Some [''/a'']) fresh_scraper)
     = [[(''user'', ''x''), (''pass'', ''secret'')]] \<and>
   auth_calls (run_events site_env None (Some [''/a'']) fresh_scraper) = []"
proof -
  have 1: "fst (init_browser site_env fresh_scraper) = Inr ()"
    by (simp add: model_defs)
  from run_authenticates_iff_credentials_truthy
         [OF 1, of "Some [(''user'', ''x''), (''pass'', ''secret'')]" "Some [''/a'']"]
  have a: "auth_calls (run_events site_env (Some [(''user'', ''x''), (''pass'', ''secret'')])
                 (Some [''/a'']) fresh_scraper)
             = [[(''user'', ''x''), (''pass'', ''secret'')]]"
    by simp
  from run_authenticates_iff_credentials_truthy [OF 1, of None "Some [''/a'']"]
  have b: "auth_calls (run_events site_env None (Some [''/a'']) fresh_scraper) = []"
    by simp
  from 1 a b show ?thesis by simp
qed

subsection \<open>C7: a navigation failure is logged and raised\<close>

text \<open>
  Claim C7. With a page at hand, whenever \<^verbatim>\<open>page.goto\<close> (called with the bounded
  timeout of 30000 ms) raises, \<open>navigate_to\<close> raises the same exception, and no
  settle delay is waited for; when the exception is of class \<^verbatim>\<open>Exception\<close>, as the
  engine's timeout error is, the error line with the site name and \<^verbatim>\<open>str(e)\<close> is
  logged first. When the load completes, \<^verbatim>\<open>wait_for_timeout(wait_time)\<close> is
  called next, and \<open>navigate_to\<close> returns normally if that wait does.
\<close>

theorem navigate_to_raises_after_logging:
  assumes "page st = Some p"
  shows "(goto_exn env p u = Some e \<longrightarrow>
            fst (navigate_to env u wait_time st) = Inl e \<and>
            trace (snd (navigate_to env u wait_time st)) =
              trace st @ Call_goto p u ''networkidle'' 30000 #
                (if is_Exception e
                 then [Log ERROR (''['' @ site_name st @ ''] failed to navigate to: '' @ str e)]
                 else [])) \<and>
         (goto_exn env p u = None \<longrightarrow>
            (\<exists>evs. trace (snd (navigate_to env u wait_time st)) =
               trace st @ Call_goto p u ''networkidle'' 30000 #
                 Call_wait_for_timeout p wait_time # evs) \<and>
            fst (navigate_to env u wait_time st) =
              (case wait_exn env p wait_time of None \<Rightarrow> Inr () | Some e' \<Rightarrow> Inl e'))"
  using assms
  by (simp add: navigate_to_def navigate_try_def emit_def log_prefix_def Let_def
      split: option.splits)

text \<open>
  The page \<^verbatim>\<open>/slow\<close> exceeds the timeout: the error is logged and raised. The page
  \<^verbatim>\<open>/a\<close> loads: the settle delay follows and the call returns.
\<close>

theorem navigate_to_raises_after_logging_witness:
  "page (fresh_scraper\<lparr>page := Some 1\<rparr>) = Some 1 \<and>
   goto_exn site_env 1 ''/slow'' = Some (Exception ''Timeout 30000ms exceeded'') \<and>
   fst (navigate_to site_env ''/slow'' 3000 (fresh_scraper\<lparr>page := Some 1\<rparr>))
     = Inl (Exception ''Timeout 30000ms exceeded'') \<and>
   trace (snd (navigate_to site_env ''/slow'' 3000 (fresh_scraper\<lparr>page := Some 1\<rparr>)))
     = [Call_goto 1 ''/slow'' ''networkidle'' 30000,
        Log ERROR ''[site] failed to navigate to: Timeout 30000ms exceeded''] \<and>
   goto_exn site_env 1 ''/a'' = None \<and>
   fst (navigate_to site_env ''/a'' 3000 (fresh_scraper\<lparr>page := Some 1\<rparr>)) = Inr ()"
proof -
  let ?st = "fresh_scraper\<lparr>page := Some 1\<rparr>"
  have 1: "page ?st = Some 1" by simp
  have 2: "goto_exn site_env 1 ''/slow'' = Some (Exception ''Timeout 30000ms exceeded'')"
    by (simp add: site_env_def)
  have 3: "goto_exn site_env 1 ''/a'' = None"
    by (simp add: site_env_def)
  have 4: "wait_exn site_env 1 3000 = None"
    by (simp add: site_env_def)
  have 5: "trace ?st = []" "site_name ?st = ''site''"
    by (simp_all add: fresh_scraper_def init_scraper_def)
  from navigate_to_raises_after_logging
         [OF 1, of site_env "''/slow''" "Exception ''Timeout 30000ms exceeded''" 3000] 2 5
  have a: "fst (navigate_to site_env ''/slow'' 3000 ?st)
             = Inl (Exception ''Timeout 30000ms exceeded'')"
    "trace (snd (navigate_to site_env ''/slow'' 3000 ?st))
       = [Call_goto 1 ''/slow'' ''networkidle'' 30000,
          Log ERROR ''[site] failed to navigate to: Timeout 30000ms exceeded'']"
    by simp_all
  from navigate_to_raises_after_logging [OF 1, of site_env "''/a''" _ 3000] 3 4
  have b: "fst (navigate_to site_env ''/a'' 3000 ?st) = Inr ()"
    by simp
  from 1 2 3 a b show ?thesis by simp
qed

subsection \<open>C8: one browser and one page per run, and what stays behind\<close>

text \<open>
  Claim C8, as stated, has every run destroy the browser and the page it created and
  leave no live browser or page on the controller. \<^verbatim>\<open>close_browser\<close> never resets
  \<^verbatim>\<open>self.browser\<close> and \<^verbatim>\<open>self.page\<close>, and when \<^verbatim>\<open>page.close()\<close> raises
  it does not reach \<^verbatim>\<open>browser.close()\<close>: after the run below the browser and the
  page were created, neither was closed, and the controller still refers to both.
\<close>

theorem run_resources_counterexample:
  "resource_events (run_events closing_fails_env None (Some [''/a'']) fresh_scraper)
     = [Browser_created 0, Page_created 1] \<and>
   browser (snd (run closing_fails_env None (Some [''/a'']) fresh_scraper)) = Some 0 \<and>
   page (snd (run closing_fails_env None (Some [''/a'']) fresh_scraper)) = Some 1"
  by (simp add: model_defs)

text \<open>
  Claim C8, amended. Each run in which browser acquisition succeeds and
  \<^verbatim>\<open>close_browser\<close> does not raise creates exactly one browser and one page and
  closes both, the page first. \<open>run\<close> does not reset the controller's fields: after the
  run \<^verbatim>\<open>browser\<close> and \<^verbatim>\<open>page\<close> still refer to the closed browser and page
  of that run.
\<close>

theorem run_resources_when_nothing_fails_to_open_or_close:
  assumes "fst (init_browser env st) = Inr ()"
    and "fst (close_browser env (snd (init_browser env st))) = Inr ()"
  shows "resource_events (run_events env creds urls st) =
           [Browser_created (next_handle st), Page_created (Suc (next_handle st)),
            Page_closed (Suc (next_handle st)), Browser_closed (next_handle st)] \<and>
         browser (snd (run env creds urls st)) = Some (next_handle st) \<and>
         page (snd (run env creds urls st)) = Some (Suc (next_handle st))"
  using assms by (rule run_resources)

theorem run_resources_when_nothing_fails_to_open_or_close_witness:
  "fst (init_browser site_env fresh_scraper) = Inr () \<and>
   fst (close_browser site_env (snd (init_browser site_env fresh_scraper))) = Inr () \<and>
   resource_events (run_events site_env None (Some [''/a'', ''/b'']) fresh_scraper)
     = [Browser_created 0, Page_created 1, Page_closed 1, Browser_closed 0] \<and>
   browser (snd (run site_env None (Some [''/a'', ''/b'']) fresh_scraper)) = Some 0 \<and>
   page (snd (run site_env None (Some [''/a'', ''/b'']) fresh_scraper)) = Some 1"
proof -
  have 1: "fst (init_browser site_env fresh_scraper) = Inr ()"
    by (simp add: model_defs)
  have 2: "fst (close_browser site_env (snd (init_browser site_env fresh_scraper))) = Inr ()"
    by (simp add: model_defs)
  have 3: "next_handle fresh_scraper = 0"
    by (simp add: fresh_scraper_def init_scraper_def)
  from run_resources_when_nothing_fails_to_open_or_close
         [OF 1 2, of None "Some [''/a'', ''/b'']"] 1 2 3
  show ?thesis by simp
qed

subsection \<open>C9: \<^verbatim>\<open>close_browser\<close> on a partly initialised controller\<close>

text \<open>
  Claim C9. \<^verbatim>\<open>close_browser\<close> closes the page only if \<^verbatim>\<open>self.page\<close> is set
  and then the browser only if \<^verbatim>\<open>self.browser\<close> is set. With neither set it
  performs no close and returns normally; with only one of them set it performs that one
  close and nothing fails for want of the other. After an acquisition that failed on a
  newly constructed controller the page is not set, and the browser is set only if the
  launch had completed.
\<close>

theorem close_browser_on_partial_state:
  "(page st = None \<and> browser st = None \<longrightarrow>
      close_browser env st =
        (Inr (), emit [Call_close_browser,
                       Log INFO (log_prefix st @ '' the browser has been closed'')] st)) \<and>
   (page st = None \<and> browser st = Some b \<longrightarrow>
      close_browser env st =
        (case browser_close_exn env b of
           None \<Rightarrow>
             (Inr (), emit [Call_close_browser, Call_browser_close b, Browser_closed b,
                            Log INFO (log_prefix st @ '' the browser has been closed'')] st)
         | Some e \<Rightarrow> (Inl e, emit [Call_close_browser, Call_browser_close b] st))) \<and>
   (page st = Some p \<and> browser st = None \<longrightarrow>
      close_browser env st =
        (case page_close_exn env p of
           None \<Rightarrow>
             (Inr (), emit [Call_close_browser, Call_page_close p, Page_closed p,
                            Log INFO (log_prefix st @ '' the browser has been closed'')] st)
         | Some e \<Rightarrow> (Inl e, emit [Call_close_browser, Call_page_close p] st))) \<and>
   (page st = Some p \<and> browser st = Some b \<and> page_close_exn env p = None \<longrightarrow>
      close_browser env st =
        (case browser_close_exn env b of
           None \<Rightarrow>
             (Inr (), emit [Call_close_browser, Call_page_close p, Page_closed p,
                            Call_browser_close b, Browser_closed b,
                            Log INFO (log_prefix st @ '' the browser has been closed'')] st)
         | Some e \<Rightarrow>
             (Inl e, emit [Call_close_browser, Call_page_close p, Page_closed p,
                           Call_browser_close b] st))) \<and>
   (fst (init_browser env (init_scraper name hl s)) = Inl e' \<longrightarrow>
      page (snd (init_browser env (init_scraper name hl s))) = None \<and>
      browser (snd (init_browser env (init_scraper name hl s))) =
        (if start_exn env = None \<and> launch_exn env hl = None then Some 0 else None))"
  by (simp add: close_browser_def page_close_def browser_close_def init_browser_def
      init_scraper_def emit_def log_prefix_def Let_def split: option.splits)

text \<open>
  Two failed acquisitions. When the launch fails, nothing is closed; when only
  \<^verbatim>\<open>new_page\<close> fails, the browser alone is closed. Both calls return normally.
\<close>

theorem close_browser_on_partial_state_witness:
  "fst (init_browser launch_fails_env (init_scraper ''site'' True 0))
     = Inl (Exception ''no chromium'') \<and>
   trace (snd (close_browser launch_fails_env
                 (snd (init_browser launch_fails_env (init_scraper ''site'' True 0)))))
     = [Call_playwright_start, Call_launch True, Call_close_browser,
        Log INFO ''[site] the browser has been closed''] \<and>
   fst (close_browser launch_fails_env
          (snd (init_browser launch_fails_env (init_scraper ''site'' True 0)))) = Inr () \<and>
   fst (init_browser new_page_fails_env (init_scraper ''site'' True 0))
     = Inl (Exception ''no page'') \<and>
   trace (snd (close_browser new_page_fails_env
                 (snd (init_browser new_page_fails_env (init_scraper ''site'' True 0)))))
     = [Call_playwright_start, Call_launch True, Browser_created 0, Call_new_page 0,
        Call_close_browser, Call_browser_close 0, Browser_closed 0,
        Log INFO ''[site] the browser has been closed''] \<and>
   fst (close_browser new_page_fails_env
          (snd (init_browser new_page_fails_env (init_scraper ''site'' True 0)))) = Inr ()"
proof -
  let ?st0 = "init_scraper ''site'' True (0::nat)"
  let ?l = "snd (init_browser launch_fails_env ?st0)"
  let ?n = "snd (init_browser new_page_fails_env ?st0)"
  have l: "fst (init_browser launch_fails_env ?st0) = Inl (Exception ''no chromium'')"
    "launch_exn launch_fails_env True = Some (Exception ''no chromium'')"
    "trace ?l = [Call_playwright_start, Call_launch True]" "site_name ?l = ''site''"
    by (simp_all add: model_defs)
  have n: "fst (init_browser new_page_fails_env ?st0) = Inl (Exception ''no page'')"
    "start_exn new_page_fails_env = None" "launch_exn new_page_fails_env True = None"
    "browser_close_exn new_page_fails_env 0 = None"
    "trace ?n = [Call_playwright_start, Call_launch True, Browser_created 0, Call_new_page 0]"
    "site_name ?n = ''site''"
    by (simp_all add: model_defs)
  note a = close_browser_on_partial_state
             [where st = ?l and env = launch_fails_env and name = "''site''" and hl = True
                and s = 0 and e' = "Exception ''no chromium''"]
  note b = close_browser_on_partial_state
             [where st = ?n and env = new_page_fails_env and name = "''site''" and hl = True
                and s = 0 and e' = "Exception ''no page''" and b = 0]
  from a l have fl: "page ?l = None" "browser ?l = None" by simp_all
  from b n have fn: "page ?n = None" "browser ?n = Some 0" by simp_all
  from a fl have cl: "close_browser launch_fails_env ?l =
      (Inr (), emit [Call_close_browser,
                     Log INFO (log_prefix ?l @ '' the browser has been closed'')] ?l)"
    by blast
  from b fn n(4) have cn: "close_browser new_page_fails_env ?n =
      (Inr (), emit [Call_close_browser, Call_browser_close 0, Browser_closed 0,
                     Log INFO (log_prefix ?n @ '' the browser has been closed'')] ?n)"
    by simp
  show ?thesis
    unfolding cl cn using l n by (simp add: emit_def log_prefix_def)
qed

subsection \<open>C10: no URLs\<close>

text \<open>
  Claim C10, as stated, has a run without URLs and without credentials return the
  empty list, with the browser created and closed once. The empty list is the value of
  the \<^verbatim>\<open>try\<close> block only: when \<^verbatim>\<open>page.close()\<close> raises in the
  \<^verbatim>\<open>finally\<close> block the run raises, and the browser it created is not closed.
\<close>

theorem run_without_urls_counterexample:
  "fst (run closing_fails_env None None fresh_scraper) = Inl (Exception ''page crashed'') \<and>
   resource_events (run_events closing_fails_env None None fresh_scraper)
     = [Browser_created 0, Page_created 1]"
  by (simp add: model_defs)

text \<open>
  Claim C10, amended. Calling \<open>run\<close> without credentials and with \<^verbatim>\<open>urls\<close> omitted
  or equal to the empty list behaves the same in both cases and never invokes
  \<^verbatim>\<open>extract_data\<close>. When browser acquisition succeeds and \<^verbatim>\<open>close_browser\<close>
  does not raise, the run returns the empty list, and the browser and the page are still
  created and closed once.
\<close>

theorem run_without_urls:
  "run env None (Some []) st = run env None None st \<and>
   extract_calls (run_events env None None st) = [] \<and>
   (fst (init_browser env st) = Inr () \<and>
    fst (close_browser env (snd (init_browser env st))) = Inr () \<longrightarrow>
      fst (run env None None st) = Inr [] \<and>
      count_list (run_events env None None st) Call_close_browser = 1 \<and>
      resource_events (run_events env None None st) =
        [Browser_created (next_handle st), Page_created (Suc (next_handle st)),
         Page_closed (Suc (next_handle st)), Browser_closed (next_handle st)])"
proof (intro conjI impI)
  show "run env None (Some []) st = run env None None st"
    by (rule run_no_urls)
next
  have "snd (run_try env None None st) = snd (init_browser env st)"
    by (cases "init_browser env st")
       (simp add: run_try_def run_extract_def split: sum.splits)
  then have "try_events env None None st
               = drop (length (trace st)) (trace (snd (init_browser env st)))"
    by (simp add: try_events_def)
  then show "extract_calls (run_events env None None st) = []"
    by (simp add: run_events_calls init_events_calls)
next
  assume a: "fst (init_browser env st) = Inr () \<and>
    fst (close_browser env (snd (init_browser env st))) = Inr ()"
  then have i: "fst (init_browser env st) = Inr ()"
    and c: "fst (close_browser env (snd (init_browser env st))) = Inr ()"
    by simp_all
  from run_try_nothing_to_do [OF i] c show "fst (run env None None st) = Inr []"
    by (simp add: run_fst)
  show "count_list (run_events env None None st) Call_close_browser = 1"
  proof -
    obtain x y where s:
      "trace (snd (run env None None st)) = trace st @ x @ Call_close_browser # y"
      "Call_close_browser \<notin> set x" "Call_close_browser \<notin> set y"
      using run_trace_split by blast
    then have "run_events env None None st = x @ Call_close_browser # y"
      by (simp add: run_events_def)
    with s(2,3) show ?thesis by (simp add: count_list_0_iff)
  qed
  from run_resources [OF i c, of None None]
  show "resource_events (run_events env None None st) =
        [Browser_created (next_handle st), Page_created (Suc (next_handle st)),
         Page_closed (Suc (next_handle st)), Browser_closed (next_handle st)]"
    by simp
qed

theorem run_without_urls_witness:
  "fst (init_browser site_env fresh_scraper) = Inr () \<and>
   fst (close_browser site_env (snd (init_browser site_env fresh_scraper))) = Inr () \<and>
   run site_env None (Some []) fresh_scraper = run site_env None None fresh_scraper \<and>
   fst (run site_env None None fresh_scraper) = Inr [] \<and>
   extract_calls (run_events site_env None None fresh_scraper) = [] \<and>
   resource_events (run_events site_env None None fresh_scraper)
     = [Browser_created 0, Page_created 1, Page_closed 1, Browser_closed 0]"
proof -
  have 1: "fst (init_browser site_env fresh_scraper) = Inr ()"
    by (simp add: model_defs)
  have 2: "fst (close_browser site_env (snd (init_browser site_env fresh_scraper))) = Inr ()"
    by (simp add: model_defs)
  have 3: "next_handle fresh_scraper = 0"
    by (simp add: fresh_scraper_def init_scraper_def)
  from run_without_urls [of site_env fresh_scraper] 1 2 3
  show ?thesis by simp
qed

end
